theory Spec2Isabelle
  imports Complex_Main "HOL-Library.AList"
begin

section \<open>Python values and errors\<close>

text \<open>
  Exceptions of the Python sources are values of \<open>py_error\<close>; a function that may raise
  returns \<open>py_error + 'a\<close>, with \<open>Inl\<close> for the exception.
\<close>

datatype py_error =
    ValueError
  | TypeError
  | OverflowError
  | ZeroDivisionError
  | IndexError
  | KeyError
  | Exception
  | IncompatibleObservationToken

text \<open>
  The values a caller can hand to \<open>Effect.set_prob\<close>: an \<open>int\<close> (unbounded), a finite
  \<open>float\<close> (given by its exact rational value), the floats \<open>nan\<close> and \<open>\<plusminus>inf\<close>
  (\<open>PyInf True\<close> is \<open>+inf\<close>), a \<open>str\<close> and \<open>None\<close>.
\<close>

datatype py_value =
    PyInt int
  | PyFloat rat
  | PyNaN
  | PyInf bool
  | PyStr string
  | PyNone

subsection \<open>The builtin \<open>int(x)\<close>\<close>

definition is_space :: "char \<Rightarrow> bool" where
  "is_space c = (c \<in> set [CHR '' '', CHR 0x09, CHR 0x0A, CHR 0x0B, CHR 0x0C, CHR 0x0D])"

definition is_digit :: "char \<Rightarrow> bool" where
  "is_digit c = (c \<in> set ''0123456789'')"

definition strip :: "string \<Rightarrow> string" where
  "strip s = rev (dropWhile is_space (rev (dropWhile is_space s)))"

text \<open>Digits with single underscores between them, as an \<open>int\<close> literal allows.\<close>

fun digit_groups :: "string \<Rightarrow> bool" where
  "digit_groups [] = False"
| "digit_groups [c] = is_digit c"
| "digit_groups (c # d # rest) =
     (is_digit c \<and> (if d = CHR ''_'' then digit_groups rest else digit_groups (d # rest)))"

definition int_literal :: "string \<Rightarrow> bool" where
  \<comment> \<open>whether \<open>int(s)\<close> accepts the (ASCII) string \<open>s\<close>\<close>
  "int_literal s =
     (case strip s of
        [] \<Rightarrow> False
      | c # rest \<Rightarrow> if c = CHR ''+'' \<or> c = CHR ''-'' then digit_groups rest
                   else digit_groups (c # rest))"

text \<open>
  \<open>int(x)\<close> is used by \<open>set_prob\<close> only for the exception it may raise: \<open>ValueError\<close> on a
  string that is no literal and on \<open>nan\<close>, \<open>OverflowError\<close> on an infinity, \<open>TypeError\<close>
  on \<open>None\<close>. The converted number is dropped by the caller (\<open>test_int\<close> is never read).
\<close>

definition py_int :: "py_value \<Rightarrow> py_error + unit" where
  "py_int v =
     (case v of
        PyInt n \<Rightarrow> Inr ()
      | PyFloat x \<Rightarrow> Inr ()
      | PyNaN \<Rightarrow> Inl ValueError
      | PyInf b \<Rightarrow> Inl OverflowError
      | PyStr s \<Rightarrow> if int_literal s then Inr () else Inl ValueError
      | PyNone \<Rightarrow> Inl TypeError)"

text \<open>\<open>v < k\<close> and \<open>v > k\<close> for an \<open>int\<close> constant \<open>k\<close>; a string or \<open>None\<close> is not ordered
  against an \<open>int\<close>.\<close>

definition py_lt :: "py_value \<Rightarrow> int \<Rightarrow> py_error + bool" where
  "py_lt v k =
     (case v of
        PyInt n \<Rightarrow> Inr (n < k)
      | PyFloat x \<Rightarrow> Inr (x < of_int k)
      | PyNaN \<Rightarrow> Inr False
      | PyInf b \<Rightarrow> Inr (\<not> b)
      | PyStr s \<Rightarrow> Inl TypeError
      | PyNone \<Rightarrow> Inl TypeError)"

definition py_gt :: "py_value \<Rightarrow> int \<Rightarrow> py_error + bool" where
  "py_gt v k =
     (case v of
        PyInt n \<Rightarrow> Inr (n > k)
      | PyFloat x \<Rightarrow> Inr (x > of_int k)
      | PyNaN \<Rightarrow> Inr False
      | PyInf b \<Rightarrow> Inr b
      | PyStr s \<Rightarrow> Inl TypeError
      | PyNone \<Rightarrow> Inl TypeError)"

section \<open>\<open>core.py\<close>: predicates, effects and actions\<close>

record 'o predicate =
  pred_name :: string
  pred_objects :: "'o list"

text \<open>\<open>class Effect(Predicate)\<close> extends the predicate by \<open>func\<close> and \<open>probability\<close>.\<close>

record 'o effect = "'o predicate" +
  func :: string
  probability :: py_value

record 'o action =
  act_name :: string
  obj_params :: "'o list"
  precond :: "'o predicate list"
  effects :: "'o effect list"

text \<open>
  \<open>Effect.set_prob\<close>: \<open>int(prob)\<close> inside \<open>try\<close>, a \<open>ValueError\<close> raised again as a
  \<open>ValueError\<close> (any other exception passes), then the two comparisons on \<open>prob\<close> itself.
\<close>

definition set_prob :: "py_value \<Rightarrow> py_error + py_value" where
  "set_prob prob =
     (case py_int prob of
        Inl e \<Rightarrow> (if e = ValueError then Inl ValueError else Inl e)
      | Inr test_int \<Rightarrow>
          (case py_lt prob 0 of
             Inl e \<Rightarrow> Inl e
           | Inr True \<Rightarrow> Inr (PyInt 0)
           | Inr False \<Rightarrow>
               (case py_gt prob 100 of
                  Inl e \<Rightarrow> Inl e
                | Inr True \<Rightarrow> Inr (PyInt 100)
                | Inr False \<Rightarrow> Inr prob)))"

definition Effect_init ::
  "string \<Rightarrow> 'o list \<Rightarrow> string \<Rightarrow> py_value \<Rightarrow> py_error + 'o effect" where
  "Effect_init name objects fn prob =
     (case set_prob prob of
        Inl e \<Rightarrow> Inl e
      | Inr p \<Rightarrow> Inr \<lparr>pred_name = name, pred_objects = objects, func = fn, probability = p\<rparr>)"

definition Action_init :: "string \<Rightarrow> 'o list \<Rightarrow> 'o action" where
  "Action_init name params = \<lparr>act_name = name, obj_params = params, precond = [], effects = []\<rparr>"

text \<open>The loop \<open>for obj in objects: if obj not in self.obj_params: raise Exception(...)\<close>.\<close>

fun check_objects :: "'o list \<Rightarrow> 'o list \<Rightarrow> py_error + unit" where
  "check_objects [] params = Inr ()"
| "check_objects (obj # rest) params =
     (if obj \<notin> set params then Inl Exception else check_objects rest params)"

text \<open>
  \<open>add_effect\<close> and \<open>add_precond\<close> mutate the action; the model returns the exception raised
  (if any) together with the action as it is afterwards.
\<close>

definition add_effect ::
  "'o action \<Rightarrow> string \<Rightarrow> 'o list \<Rightarrow> string \<Rightarrow> py_value \<Rightarrow> py_error option \<times> 'o action" where
  "add_effect self name objects fn prob =
     (case check_objects objects (obj_params self) of
        Inl e \<Rightarrow> (Some e, self)
      | Inr u \<Rightarrow>
          (case Effect_init name objects fn (PyInt 100) of
             Inl e \<Rightarrow> (Some e, self)
           | Inr eff \<Rightarrow> (None, self\<lparr>effects := effects self @ [eff]\<rparr>)))"

definition add_precond ::
  "'o action \<Rightarrow> string \<Rightarrow> 'o list \<Rightarrow> py_error option \<times> 'o action" where
  "add_precond self name objects =
     (case check_objects objects (obj_params self) of
        Inl e \<Rightarrow> (Some e, self)
      | Inr u \<Rightarrow>
          (None, self\<lparr>precond := precond self @ [\<lparr>pred_name = name, pred_objects = objects\<rparr>]\<rparr>))"

section \<open>\<open>macq/utils/progress.py\<close>: the progress wrapper\<close>

text \<open>
  \<open>vanilla_progress.__iter__\<close> first classifies the wrapped iterable: a \<open>range\<close>
  (\<open>start\<close>, \<open>stop\<close>, \<open>step\<close>), another \<open>Sized\<close> object, or anything else. The elements
  the iterable produces are given as a list beside the kind.
\<close>

datatype iterable_kind = RangeIt int int int | Sized | Unsized

definition total_of :: "iterable_kind \<Rightarrow> 'a list \<Rightarrow> rat option" where
  "total_of kind xs =
     (case kind of
        RangeIt start stop step \<Rightarrow> Some (of_int (stop - start) / of_int step)
      | Sized \<Rightarrow> Some (of_nat (length xs))
      | Unsized \<Rightarrow> None)"

definition digit_val :: "char \<Rightarrow> nat" where
  "digit_val c = of_char c - 48"

definition digit_str :: "nat \<Rightarrow> string" where
  "digit_str n = [char_of (48 + n)]"

text \<open>\<open>int(s[2])\<close>: \<open>IndexError\<close> on a string shorter than three characters,
  \<open>ValueError\<close> when the third character is no digit.\<close>

definition third_digit :: "string \<Rightarrow> py_error + nat" where
  "third_digit s =
     (if length s \<le> 2 then Inl IndexError
      else if is_digit (s ! 2) then Inr (digit_val (s ! 2))
      else Inl ValueError)"

datatype outcome = StopIteration | Raised py_error

text \<open>
  The generator, run to its end: the values it yields, the lines it prints, and how it
  stops. \<open>str_div it tot\<close> stands for the text of the float quotient, \<open>str(it / total)\<close>,
  which is computed by Python's float division and \<open>repr\<close> and is a parameter here. The
  code after \<open>yield i\<close> runs when the consumer asks for the next value; an exception there
  ends the iteration with the values yielded so far.
\<close>

fun progress_loop ::
  "(nat \<Rightarrow> rat \<Rightarrow> string) \<Rightarrow> rat option \<Rightarrow> 'a list \<Rightarrow> nat \<Rightarrow> nat \<Rightarrow> 'a list \<Rightarrow> string list
     \<Rightarrow> 'a list \<times> string list \<times> outcome" where
  "progress_loop str_div tot [] prev it ys out = (ys, out, StopIteration)"
| "progress_loop str_div tot (i # rest) prev it ys out =
     (case tot of
        None \<Rightarrow> progress_loop str_div tot rest prev (it + 1) (ys @ [i]) out
      | Some t \<Rightarrow>
          if t = 0 then (ys @ [i], out, Raised ZeroDivisionError)
          else
            (case third_digit (str_div it t) of
               Inl e \<Rightarrow> (ys @ [i], out, Raised e)
             | Inr new \<Rightarrow>
                 if new \<noteq> prev
                 then progress_loop str_div tot rest new (it + 1) (ys @ [i])
                        (out @ [if new = 0 then ''100%'' else digit_str new @ ''0% ...''])
                 else progress_loop str_div tot rest prev (it + 1) (ys @ [i]) out))"

definition vanilla_progress_iter ::
  "(nat \<Rightarrow> rat \<Rightarrow> string) \<Rightarrow> iterable_kind \<Rightarrow> 'a list \<Rightarrow> 'a list \<times> string list \<times> outcome" where
  "vanilla_progress_iter str_div kind xs = progress_loop str_div (total_of kind xs) xs 0 1 [] []"

section \<open>Python containers\<close>

text \<open>
  A \<open>dict\<close> keeps its keys in insertion order: an association list with distinct keys,
  read with \<open>map_of\<close> and written with \<open>AList.update\<close> (an existing key keeps its place).

  A \<open>set\<close> that the code enumerates (\<open>list(s)\<close>, \<open>for x in s\<close>) is the list of its
  elements in iteration order. Python leaves that order open; in CPython it follows the
  elements' hash values and, for elements that meet in the hash table, the order of
  insertion. \<open>set_of_list\<close> keeps the order of first insertion, one order CPython
  produces. Two set objects are equal (\<open>==\<close>) when they have the same elements.
\<close>

type_synonym ('k, 'v) dict = "('k \<times> 'v) list"

definition set_add :: "'a list \<Rightarrow> 'a \<Rightarrow> 'a list" where
  "set_add s x = (if x \<in> set s then s else s @ [x])"

definition set_of_list :: "'a list \<Rightarrow> 'a list" where
  "set_of_list xs = foldl set_add [] xs"

definition dict_of_pairs :: "('k \<times> 'v) list \<Rightarrow> ('k, 'v) dict" where
  "dict_of_pairs ps = foldl (\<lambda>d (k, v). AList.update k v d) [] ps"

text \<open>\<open>xs[i]\<close> for a Python \<open>int\<close> index: a negative index counts from the end.\<close>

definition getitem :: "'a list \<Rightarrow> int \<Rightarrow> py_error + 'a" where
  "getitem xs i =
     (if 0 \<le> i \<and> i < int (length xs) then Inr (xs ! nat i)
      else if i < 0 \<and> - i \<le> int (length xs) then Inr (xs ! nat (int (length xs) + i))
      else Inl IndexError)"

text \<open>\<open>sep.join(xs)\<close>.\<close>

fun str_join :: "string \<Rightarrow> string list \<Rightarrow> string" where
  "str_join sep [] = []"
| "str_join sep [x] = x"
| "str_join sep (x # y # rest) = x @ sep @ str_join sep (y # rest)"

section \<open>Traces and observations\<close>

record planning_object =
  obj_type :: string
  obj_name :: string

record fluent =
  fluent_name :: string
  fluent_objects :: "planning_object list"

text \<open>A step of a trace as the extraction reads it: \<open>obs.action\<close> and \<open>obs.state\<close>, the
  state being \<open>None\<close> or a \<open>dict\<close> from fluents to truth values.\<close>

record observation =
  obs_action :: "planning_object action"
  obs_state :: "(fluent, bool) dict option"

datatype token_type = PartialObservation | IdentityObservation

record observation_lists =
  token :: token_type
  traces :: "observation list list"

text \<open>
  Modelled from the spec: \<open>ObservationLists.get_fluents\<close> and \<open>get_actions\<close> are not among
  the sources. The corpus "supplies the set of distinct fluents and the set of action
  instances seen": every fluent of an observed state and every action of a step, each once.
\<close>

definition state_fluents :: "observation \<Rightarrow> fluent list" where
  "state_fluents obs = (case obs_state obs of None \<Rightarrow> [] | Some st \<Rightarrow> map fst st)"

definition get_fluents :: "observation_lists \<Rightarrow> fluent list" where
  "get_fluents obs_lists = set_of_list (concat (map state_fluents (concat (traces obs_lists))))"

definition get_actions :: "observation_lists \<Rightarrow> planning_object action list" where
  "get_actions obs_lists = set_of_list (map obs_action (concat (traces obs_lists)))"

section \<open>\<open>macq/extract/arms.py\<close>\<close>

subsection \<open>Relations\<close>

text \<open>
  \<open>@dataclass class Relation\<close> with fields \<open>name\<close> and \<open>types\<close>; \<open>types\<close> is a Python set,
  held in iteration order since \<open>var\<close> enumerates it.
\<close>

record relation =
  rel_name :: string
  types :: "string list"

definition var :: "relation \<Rightarrow> string" where
  "var self = rel_name self @ '' '' @ str_join '' '' (types self)"

text \<open>\<open>__hash__\<close> is the hash of the string \<open>var()\<close>; \<open>str_hash\<close> stands for Python's hash
  of a string.\<close>

definition Relation_hash :: "(string \<Rightarrow> int) \<Rightarrow> relation \<Rightarrow> int" where
  "Relation_hash str_hash self = str_hash (var self)"

text \<open>The \<open>__eq__\<close> the dataclass generates compares the field tuples \<open>(name, types)\<close>;
  two sets compare by their elements.\<close>

definition Relation_eq :: "relation \<Rightarrow> relation \<Rightarrow> bool" where
  "Relation_eq r1 r2 = (rel_name r1 = rel_name r2 \<and> set (types r1) = set (types r2))"

text \<open>The relation of a fluent, as \<open>_step2\<close> builds it:
  \<open>Relation(f.name, set([obj.obj_type for obj in f.objects]))\<close>.\<close>

definition fluent_relation :: "fluent \<Rightarrow> relation" where
  "fluent_relation f =
     \<lparr>rel_name = fluent_name f, types = set_of_list (map obj_type (fluent_objects f))\<rparr>"

subsection \<open>Learned actions and the model\<close>

text \<open>
  Modelled from the spec: \<open>LearnedAction\<close> and \<open>Model\<close> are imported by \<open>arms.py\<close> and are not
  among the sources. A learned action is "name: string, parameter_types: set of Type", and
  two of them are the same dictionary key when both agree; the model is "fluents: set of
  Fluent, actions: set of LearnedAction". The method \<open>details()\<close> of actions and learned
  actions, the string key of an action, is a parameter of the functions that call it.
\<close>

record learned_action =
  la_name :: string
  la_obj_params :: "string set"

definition LearnedAction_init :: "string \<Rightarrow> string set \<Rightarrow> learned_action" where
  "LearnedAction_init name ts = \<lparr>la_name = name, la_obj_params = ts\<rparr>"

record model =
  model_fluents :: "fluent list"
  model_actions :: "learned_action set"

subsection \<open>Constraints\<close>

text \<open>The formulas of the \<open>nnf\<close> package that the code builds: \<open>Var(name)\<close> with its
  polarity, \<open>And\<close> and \<open>Or\<close> over their children.\<close>

datatype nnf = Var string bool | And "nnf list" | Or "nnf list"

fun negate :: "nnf \<Rightarrow> nnf" where
  "negate (Var n b) = Var n (\<not> b)"
| "negate (And cs) = Or (map negate cs)"
| "negate (Or cs) = And (map negate cs)"

fun eval_nnf :: "(string \<Rightarrow> bool) \<Rightarrow> nnf \<Rightarrow> bool" where
  "eval_nnf \<sigma> (Var n b) = (\<sigma> n = b)"
| "eval_nnf \<sigma> (And cs) = list_all (eval_nnf \<sigma>) cs"
| "eval_nnf \<sigma> (Or cs) = list_ex (eval_nnf \<sigma>) cs"

definition implication :: "string \<Rightarrow> string \<Rightarrow> nnf" where
  "implication a b = Or [negate (Var a True), Var b True]"

subsection \<open>Step 1\<close>

definition learn_actions :: "planning_object action list \<Rightarrow> learned_action list" where
  "learn_actions obs_actions =
     map (\<lambda>obs_action.
            LearnedAction_init (act_name obs_action) (set (map obj_type (obj_params obs_action))))
         obs_actions"

text \<open>The inner loop \<open>for a2 in actions[i:]\<close>, filling the dictionary of \<open>a1\<close>.\<close>

fun connect_inner ::
  "learned_action \<Rightarrow> learned_action list \<Rightarrow> (learned_action, string set) dict
     \<Rightarrow> (learned_action, string set) dict" where
  "connect_inner a1 [] d = d"
| "connect_inner a1 (a2 # rest) d =
     (let intersection = la_obj_params a1 \<inter> la_obj_params a2
      in connect_inner a1 rest
           (if intersection \<noteq> {} then AList.update a2 intersection d else d))"

text \<open>The outer loop \<open>for i, a1 in enumerate(actions)\<close>; the list argument is
  \<open>actions[i:]\<close>, whose head is \<open>a1\<close>.\<close>

fun connect_outer ::
  "learned_action list \<Rightarrow> (learned_action, (learned_action, string set) dict) dict
     \<Rightarrow> (learned_action, (learned_action, string set) dict) dict" where
  "connect_outer [] connected_actions = connected_actions"
| "connect_outer (a1 # rest) connected_actions =
     connect_outer rest (AList.update a1 (connect_inner a1 (a1 # rest) []) connected_actions)"

definition connect ::
  "learned_action list \<Rightarrow> (learned_action, (learned_action, string set) dict) dict" where
  "connect actions = connect_outer actions []"

definition step1 ::
  "observation_lists \<Rightarrow> (learned_action, (learned_action, string set) dict) dict" where
  "step1 obs_lists = connect (learn_actions (get_actions obs_lists))"

subsection \<open>Step 2A\<close>

definition relevant :: "learned_action \<Rightarrow> relation \<Rightarrow> bool" where
  \<comment> \<open>\<open>relation.types.issubset(action.obj_params)\<close>\<close>
  "relevant action relation = (set (types relation) \<subseteq> la_obj_params action)"

definition action_constraints :: "(learned_action \<Rightarrow> string) \<Rightarrow> learned_action \<Rightarrow> relation \<Rightarrow> nnf list" where
  \<comment> \<open>the three \<open>constraints.append\<close> of one relevant pair, in order\<close>
  "action_constraints details action relation =
     [implication (var relation @ ''_in_add_'' @ details action)
                  (var relation @ ''_notin_pre_'' @ details action),
      implication (var relation @ ''_in_pre_'' @ details action)
                  (var relation @ ''_notin_add_'' @ details action),
      implication (var relation @ ''_in_del_'' @ details action)
                  (var relation @ ''_in_pre_'' @ details action)]"

fun step2A_relations ::
  "(learned_action \<Rightarrow> string) \<Rightarrow> learned_action \<Rightarrow> relation list \<Rightarrow> nnf list \<Rightarrow> nnf list" where
  "step2A_relations details action [] constraints = constraints"
| "step2A_relations details action (relation # rest) constraints =
     step2A_relations details action rest
       (if relevant action relation
        then constraints @ action_constraints details action relation
        else constraints)"

fun step2A_actions ::
  "(learned_action \<Rightarrow> string) \<Rightarrow> learned_action list \<Rightarrow> relation list \<Rightarrow> nnf list \<Rightarrow> nnf list" where
  "step2A_actions details [] relations constraints = constraints"
| "step2A_actions details (action # rest) relations constraints =
     step2A_actions details rest relations (step2A_relations details action relations constraints)"

text \<open>\<open>relations\<close> is the set of relations in its iteration order; the set of actions is
  built from the keys of \<open>connected_actions\<close>.\<close>

definition step2A ::
  "(learned_action \<Rightarrow> string) \<Rightarrow> (learned_action, (learned_action, string set) dict) dict
     \<Rightarrow> relation list \<Rightarrow> nnf list" where
  "step2A details connected_actions relations =
     step2A_actions details (set_of_list (map fst connected_actions)) relations []"

subsection \<open>Step 2I\<close>

text \<open>\<open>support_counts\<close> is a \<open>defaultdict(int)\<close> keyed by \<open>(relation, action, role)\<close>;
  \<open>support_counts[key] += 1\<close> reads a missing key as 0.\<close>

type_synonym support_key = "relation \<times> planning_object action \<times> string"

definition increment :: "support_key \<Rightarrow> (support_key, nat) dict \<Rightarrow> (support_key, nat) dict" where
  "increment key support_counts =
     AList.update key ((case map_of support_counts key of None \<Rightarrow> 0 | Some c \<Rightarrow> c) + 1)
       support_counts"

text \<open>The list \<open>i1\<close>: one variable for each step of \<open>obs_list[:i]\<close>.\<close>

definition i1_vars ::
  "(planning_object action \<Rightarrow> string) \<Rightarrow> relation \<Rightarrow> observation list \<Rightarrow> nat \<Rightarrow> nnf list" where
  "i1_vars details rel obs_list i =
     map (\<lambda>obs_i. Var (var rel @ ''_in_add_'' @ details (obs_action obs_i)) True)
         (take i obs_list)"

text \<open>
  The body of \<open>if val:\<close> for one fluent of the state of step \<open>i\<close>. \<open>relations[fluent]\<close>
  raises \<open>KeyError\<close> on a fluent that is no key; the first lookup comes before anything
  is appended. \<open>obs_list[i-1]\<close> is Python indexing, so at \<open>i = 0\<close> it reads \<open>obs_list[-1]\<close>.
\<close>

definition step2I_fluent ::
  "(planning_object action \<Rightarrow> string) \<Rightarrow> (fluent, relation) dict \<Rightarrow> observation list \<Rightarrow> nat
     \<Rightarrow> observation \<Rightarrow> fluent \<Rightarrow> nnf list \<times> (support_key, nat) dict
     \<Rightarrow> py_error + nnf list \<times> (support_key, nat) dict" where
  "step2I_fluent details relations obs_list i obs fluent acc =
     (case acc of (constraints, support_counts) \<Rightarrow>
      (case map_of relations fluent of
         None \<Rightarrow> Inl KeyError
       | Some rel \<Rightarrow>
           (case getitem obs_list (int i - 1) of
              Inl e \<Rightarrow> Inl e
            | Inr before \<Rightarrow>
                (let i1 = i1_vars details rel obs_list i;
                     i2 = Var (var rel @ ''_notin_del_'' @ details (obs_action before)) True;
                     constraints' = constraints @ [And [Or i1, i2]]
                 in if int i < int (length obs_list) - 1
                    then Inr (constraints',
                              increment (rel, obs_action obs, ''pre'') support_counts)
                    else Inr (constraints',
                              increment (rel, obs_action before, ''add'') support_counts)))))"

text \<open>\<open>for fluent, val in obs.state.items()\<close>.\<close>

fun step2I_items ::
  "(planning_object action \<Rightarrow> string) \<Rightarrow> (fluent, relation) dict \<Rightarrow> observation list \<Rightarrow> nat
     \<Rightarrow> observation \<Rightarrow> (fluent, bool) dict \<Rightarrow> nnf list \<times> (support_key, nat) dict
     \<Rightarrow> py_error + nnf list \<times> (support_key, nat) dict" where
  "step2I_items details relations obs_list i obs [] acc = Inr acc"
| "step2I_items details relations obs_list i obs ((fluent, val) # rest) acc =
     (if val
      then (case step2I_fluent details relations obs_list i obs fluent acc of
              Inl e \<Rightarrow> Inl e
            | Inr acc' \<Rightarrow> step2I_items details relations obs_list i obs rest acc')
      else step2I_items details relations obs_list i obs rest acc)"

text \<open>\<open>for i, obs in enumerate(obs_list)\<close>; the list argument holds the steps from
  position \<open>i\<close> on.\<close>

fun step2I_steps ::
  "(planning_object action \<Rightarrow> string) \<Rightarrow> (fluent, relation) dict \<Rightarrow> observation list \<Rightarrow> nat
     \<Rightarrow> observation list \<Rightarrow> nnf list \<times> (support_key, nat) dict
     \<Rightarrow> py_error + nnf list \<times> (support_key, nat) dict" where
  "step2I_steps details relations obs_list i [] acc = Inr acc"
| "step2I_steps details relations obs_list i (obs # rest) acc =
     (case obs_state obs of
        None \<Rightarrow> step2I_steps details relations obs_list (i + 1) rest acc
      | Some st \<Rightarrow>
          (case step2I_items details relations obs_list i obs st acc of
             Inl e \<Rightarrow> Inl e
           | Inr acc' \<Rightarrow> step2I_steps details relations obs_list (i + 1) rest acc'))"

text \<open>\<open>for obs_list in obs_lists\<close>.\<close>

fun step2I_lists ::
  "(planning_object action \<Rightarrow> string) \<Rightarrow> (fluent, relation) dict \<Rightarrow> observation list list
     \<Rightarrow> nnf list \<times> (support_key, nat) dict
     \<Rightarrow> py_error + nnf list \<times> (support_key, nat) dict" where
  "step2I_lists details relations [] acc = Inr acc"
| "step2I_lists details relations (obs_list # rest) acc =
     (case step2I_steps details relations obs_list 0 obs_list acc of
        Inl e \<Rightarrow> Inl e
      | Inr acc' \<Rightarrow> step2I_lists details relations rest acc')"

definition step2I ::
  "(planning_object action \<Rightarrow> string) \<Rightarrow> observation list list \<Rightarrow> (fluent, relation) dict
     \<Rightarrow> py_error + nnf list \<times> (support_key, nat) dict" where
  "step2I details obs_lists relations = step2I_lists details relations obs_lists ([], [])"

subsection \<open>Step 2 and the entry point\<close>

text \<open>
  \<open>_step2\<close> builds the dictionary from fluents to relations, calls \<open>_step2A\<close> and
  \<open>_step2I\<close>, and returns the empty list. The lines that would compute the support rates
  stand inside a string literal and are not executed.
\<close>

definition step2 ::
  "(learned_action \<Rightarrow> string) \<Rightarrow> (planning_object action \<Rightarrow> string) \<Rightarrow> observation_lists
     \<Rightarrow> (learned_action, (learned_action, string set) dict) dict \<Rightarrow> fluent list
     \<Rightarrow> py_error + nnf list" where
  "step2 ldetails adetails obs_lists connected_actions fluents =
     (let relations = dict_of_pairs (map (\<lambda>f. (f, fluent_relation f)) fluents);
          action_constraints = step2A ldetails connected_actions (set_of_list (map snd relations))
      in case step2I adetails (traces obs_lists) relations of
           Inl e \<Rightarrow> Inl e
         | Inr (info_constraints, support_counts) \<Rightarrow> Inr [])"

definition arms ::
  "(learned_action \<Rightarrow> string) \<Rightarrow> (planning_object action \<Rightarrow> string) \<Rightarrow> observation_lists
     \<Rightarrow> fluent list \<Rightarrow> py_error + learned_action set" where
  "arms ldetails adetails obs_lists fluents =
     (let connected_actions = step1 obs_lists
      in case step2 ldetails adetails obs_lists connected_actions fluents of
           Inl e \<Rightarrow> Inl e
         | Inr constraints \<Rightarrow> Inr {})"

definition check_goal :: "observation_lists \<Rightarrow> bool" where
  "check_goal obs_lists = True"

definition ARMS ::
  "(learned_action \<Rightarrow> string) \<Rightarrow> (planning_object action \<Rightarrow> string) \<Rightarrow> observation_lists
     \<Rightarrow> py_error + model" where
  "ARMS ldetails adetails obs_lists =
     (if token obs_lists \<noteq> PartialObservation then Inl IncompatibleObservationToken
      else
        (let goal = check_goal obs_lists;
             fluents = get_fluents obs_lists
         in case arms ldetails adetails obs_lists fluents of
              Inl e \<Rightarrow> Inl e
            | Inr actions \<Rightarrow> Inr \<lparr>model_fluents = fluents, model_actions = actions\<rparr>))"

section \<open>Reference definitions for the claims\<close>

text \<open>
  The pairs the spec names for Step 2A: every action of the connected-action mapping with
  every relation, kept when the relation's types are a subset of the action's parameter
  types.
\<close>

definition relevant_pairs ::
  "(learned_action, (learned_action, string set) dict) dict \<Rightarrow> relation list
     \<Rightarrow> (learned_action \<times> relation) list" where
  "relevant_pairs connected_actions relations =
     filter (\<lambda>(a, r). relevant a r)
       (List.product (set_of_list (map fst connected_actions)) relations)"

text \<open>
  The constraint \<open>And([Or(i1), i2])\<close> that Step 2I appends for a fluent with relation \<open>rel\<close>
  observed true at step \<open>i\<close> of \<open>obs_list\<close>. The step that \<open>obs_list[i-1]\<close> reads is the one
  before \<open>i\<close>, and the last of the trace when \<open>i = 0\<close>.
\<close>

definition info_constraint ::
  "(planning_object action \<Rightarrow> string) \<Rightarrow> relation \<Rightarrow> observation list \<Rightarrow> nat \<Rightarrow> nnf" where
  "info_constraint details rel obs_list i =
     And [Or (i1_vars details rel obs_list i),
          Var (var rel @ ''_notin_del_'' @
               details (obs_action (obs_list ! (if i = 0 then length obs_list - 1 else i - 1))))
              True]"

text \<open>
  The constraints of Step 2I written as one list: for each trace, each position \<open>i\<close> with an
  observed state, and each fluent of that state mapped to true (in the order of the
  state's items), the constraint of that fluent's relation at \<open>i\<close>.
\<close>

definition state_constraints ::
  "(planning_object action \<Rightarrow> string) \<Rightarrow> (fluent, relation) dict \<Rightarrow> observation list \<Rightarrow> nat
     \<Rightarrow> (fluent, bool) dict \<Rightarrow> nnf list" where
  "state_constraints details relations obs_list i st =
     concat (map (\<lambda>(f, val).
                    if val
                    then (case map_of relations f of
                            None \<Rightarrow> []
                          | Some rel \<Rightarrow> [info_constraint details rel obs_list i])
                    else [])
                 st)"

definition step_constraints ::
  "(planning_object action \<Rightarrow> string) \<Rightarrow> (fluent, relation) dict \<Rightarrow> observation list \<Rightarrow> nat
     \<Rightarrow> nnf list" where
  "step_constraints details relations obs_list i =
     (case obs_state (obs_list ! i) of
        None \<Rightarrow> []
      | Some st \<Rightarrow> state_constraints details relations obs_list i st)"

definition trace_constraints ::
  "(planning_object action \<Rightarrow> string) \<Rightarrow> (fluent, relation) dict \<Rightarrow> observation list
     \<Rightarrow> nnf list" where
  "trace_constraints details relations obs_list =
     concat (map (step_constraints details relations obs_list) [0..<length obs_list])"

definition info_constraints ::
  "(planning_object action \<Rightarrow> string) \<Rightarrow> (fluent, relation) dict \<Rightarrow> observation list list
     \<Rightarrow> nnf list" where
  "info_constraints details relations obs_lists =
     concat (map (trace_constraints details relations) obs_lists)"

section \<open>Example corpora\<close>

text \<open>
  The end-to-end scenario of the spec: two actions, two traces; each \<open>pick-up(x)\<close> is
  followed at once by a step that observes \<open>holding(x)\<close> true, and \<open>holding(x)\<close> is never
  observed true before a \<open>pick-up(x)\<close>. A step carries the state observed before its action.
\<close>

definition block_a :: planning_object where
  "block_a = \<lparr>obj_type = ''block'', obj_name = ''a''\<rparr>"

definition block_b :: planning_object where
  "block_b = \<lparr>obj_type = ''block'', obj_name = ''b''\<rparr>"

definition table_t :: planning_object where
  "table_t = \<lparr>obj_type = ''table'', obj_name = ''t''\<rparr>"

definition pick_up :: "planning_object \<Rightarrow> planning_object action" where
  "pick_up x = Action_init ''pick-up'' [x]"

definition put_down :: "planning_object \<Rightarrow> planning_object action" where
  "put_down x = Action_init ''put-down'' [x]"

definition holding :: "planning_object \<Rightarrow> fluent" where
  "holding x = \<lparr>fluent_name = ''holding'', fluent_objects = [x]\<rparr>"

definition ontable :: "planning_object \<Rightarrow> fluent" where
  "ontable x = \<lparr>fluent_name = ''ontable'', fluent_objects = [x]\<rparr>"

definition pick_up_trace :: "planning_object \<Rightarrow> observation list" where
  "pick_up_trace x =
     [\<lparr>obs_action = pick_up x, obs_state = Some [(holding x, False)]\<rparr>,
      \<lparr>obs_action = put_down x, obs_state = Some [(holding x, True)]\<rparr>]"

definition pick_up_corpus :: observation_lists where
  "pick_up_corpus =
     \<lparr>token = PartialObservation, traces = [pick_up_trace block_a, pick_up_trace block_b]\<rparr>"

text \<open>The two learned actions of that corpus, and the relation of its fluents.\<close>

definition pick_up_schema :: learned_action where
  "pick_up_schema = \<lparr>la_name = ''pick-up'', la_obj_params = {''block''}\<rparr>"

definition put_down_schema :: learned_action where
  "put_down_schema = \<lparr>la_name = ''put-down'', la_obj_params = {''block''}\<rparr>"

definition holding_relation :: relation where
  "holding_relation = \<lparr>rel_name = ''holding'', types = [''block'']\<rparr>"

text \<open>A trace whose first step already observes a fluent true; its second step has no
  observed state.\<close>

definition ontable_trace :: "observation list" where
  "ontable_trace =
     [\<lparr>obs_action = pick_up block_a, obs_state = Some [(ontable block_a, True)]\<rparr>,
      \<lparr>obs_action = put_down block_a, obs_state = None\<rparr>]"

text \<open>Two fluents of the same name over the same types, the objects in opposite order.\<close>

definition on_block_table :: fluent where
  "on_block_table = \<lparr>fluent_name = ''on'', fluent_objects = [block_a, table_t]\<rparr>"

definition on_table_block :: fluent where
  "on_table_block = \<lparr>fluent_name = ''on'', fluent_objects = [table_t, block_a]\<rparr>"

section \<open>Properties of \<open>core.py\<close>\<close>

lemma check_objects_iff:
  "check_objects objects params = (if set objects \<subseteq> set params then Inr () else Inl Exception)"
  by (induction objects) auto

lemma set_prob_int: "set_prob (PyInt p) = Inr (PyInt (max 0 (min 100 p)))"
  by (auto simp: set_prob_def py_int_def py_lt_def py_gt_def max_def min_def split: bool.splits)

lemma set_prob_100: "set_prob (PyInt 100) = Inr (PyInt 100)"
  by (simp add: set_prob_int)

text \<open>
  C4: for every value \<open>p\<close> supplied as the probability of an effect, an integer is stored
  as \<open>max(0, min(100, p))\<close> and a value that is no integer raises. The integer half is
  \<open>set_prob_int\<close>. The other half fails on the code: \<open>int(prob)\<close> accepts a float, so the
  float \<open>50.5\<close> passes the check and is stored as it is.
\<close>

theorem set_prob_accepts_float:
  "set_prob (PyFloat (101 / 2)) = Inr (PyFloat (101 / 2))"
  by (simp add: set_prob_def py_int_def py_lt_def py_gt_def)

text \<open>
  C5: \<open>add_precond\<close> and \<open>add_effect\<close> with an object that is not among the action's
  \<open>obj_params\<close> raise at once and leave the action as it was; when every object is among
  them, the call raises nothing and appends exactly one precondition, or one effect.
\<close>

theorem add_checks_objects_first:
  "(\<not> set objs \<subseteq> set (obj_params a) \<longrightarrow>
      add_precond a n objs = (Some Exception, a) \<and>
      add_effect a n objs f p = (Some Exception, a)) \<and>
   (set objs \<subseteq> set (obj_params a) \<longrightarrow>
      add_precond a n objs =
        (None, a\<lparr>precond := precond a @ [\<lparr>pred_name = n, pred_objects = objs\<rparr>]\<rparr>) \<and>
      (\<exists>e. add_effect a n objs f p = (None, a\<lparr>effects := effects a @ [e]\<rparr>)))"
  by (auto simp: add_precond_def add_effect_def check_objects_iff Effect_init_def set_prob_100)

theorem add_checks_objects_first_witness:
  "add_precond (Action_init ''put down'' [''block 1'', ''block 2'']) ''precond''
       [''block 1'', ''block 3'']
     = (Some Exception, Action_init ''put down'' [''block 1'', ''block 2'']) \<and>
   add_effect (Action_init ''put down'' [''block 1'', ''block 2'']) ''eff''
       [''block 1'', ''block 3''] ''func1'' (PyInt 94)
     = (Some Exception, Action_init ''put down'' [''block 1'', ''block 2'']) \<and>
   add_precond (Action_init ''put down'' [''block 1'', ''block 2'']) ''precond''
       [''block 1'', ''block 2'']
     = (None, \<lparr>act_name = ''put down'', obj_params = [''block 1'', ''block 2''],
               precond = [\<lparr>pred_name = ''precond'', pred_objects = [''block 1'', ''block 2'']\<rparr>],
               effects = []\<rparr>) \<and>
   (\<exists>e. add_effect (Action_init ''put down'' [''block 1'', ''block 2'']) ''eff''
          [''block 1'', ''block 2''] ''func1'' (PyInt 94)
        = (None, \<lparr>act_name = ''put down'', obj_params = [''block 1'', ''block 2''],
                  precond = [], effects = [e]\<rparr>))"
  using add_checks_objects_first
          [of "[''block 1'', ''block 3'']" "Action_init ''put down'' [''block 1'', ''block 2'']"
              "''precond''" "''func1''" "PyInt 94"]
        add_checks_objects_first
          [of "[''block 1'', ''block 3'']" "Action_init ''put down'' [''block 1'', ''block 2'']"
              "''eff''" "''func1''" "PyInt 94"]
        add_checks_objects_first
          [of "[''block 1'', ''block 2'']" "Action_init ''put down'' [''block 1'', ''block 2'']"
              "''precond''" "''func1''" "PyInt 94"]
        add_checks_objects_first
          [of "[''block 1'', ''block 2'']" "Action_init ''put down'' [''block 1'', ''block 2'']"
              "''eff''" "''func1''" "PyInt 94"]
  by (simp add: Action_init_def)

text \<open>
  C9: when the objects are drawn from the action's \<open>obj_params\<close>, \<open>add_effect\<close> appends an
  effect whose stored probability is 100 whatever probability \<open>p\<close> the caller supplied:
  the argument is not passed on to the constructor of the effect.
\<close>

theorem add_effect_probability_100:
  "set objs \<subseteq> set (obj_params a) \<Longrightarrow>
     add_effect a n objs f p =
       (None, a\<lparr>effects := effects a @
                 [\<lparr>pred_name = n, pred_objects = objs, func = f, probability = PyInt 100\<rparr>]\<rparr>) \<and>
     probability (last (effects (snd (add_effect a n objs f p)))) = PyInt 100"
  by (simp add: add_effect_def check_objects_iff Effect_init_def set_prob_100)

theorem add_effect_probability_100_witness:
  "set [''block 1'', ''block 2''] \<subseteq> set (obj_params (Action_init ''put down'' [''block 1'', ''block 2''])) \<and>
   add_effect (Action_init ''put down'' [''block 1'', ''block 2'']) ''eff''
       [''block 1'', ''block 2''] ''func1'' (PyInt 94)
     = (None, \<lparr>act_name = ''put down'', obj_params = [''block 1'', ''block 2''], precond = [],
               effects = [\<lparr>pred_name = ''eff'', pred_objects = [''block 1'', ''block 2''],
                           func = ''func1'', probability = PyInt 100\<rparr>]\<rparr>)"
  using add_effect_probability_100
          [of "[''block 1'', ''block 2'']" "Action_init ''put down'' [''block 1'', ''block 2'']"
              "''eff''" "''func1''" "PyInt 94"]
  by (simp add: Action_init_def)

section \<open>Properties of the progress wrapper\<close>

text \<open>Without a total the wrapper passes every element on, and in every case the values
  it yields are the first elements of the iterable, in order.\<close>

lemma progress_loop_unsized:
  "progress_loop str_div None xs prev it ys out = (ys @ xs, out, StopIteration)"
  by (induction xs arbitrary: it ys) auto

lemma progress_loop_prefix:
  "\<exists>k \<le> length xs. fst (progress_loop str_div tot xs prev it ys out) = ys @ take k xs"
proof (induction xs arbitrary: prev it ys out)
  case Nil
  then show ?case by simp
next
  case (Cons x xs)
  have step: "\<exists>k \<le> length (x # xs).
      fst (progress_loop str_div tot xs p (it + 1) (ys @ [x]) o') = ys @ take k (x # xs)" for p o'
  proof -
    from Cons.IH[of p "it + 1" "ys @ [x]" o'] obtain k where
      "k \<le> length xs"
      "fst (progress_loop str_div tot xs p (it + 1) (ys @ [x]) o') = (ys @ [x]) @ take k xs"
      by blast
    then show ?thesis by (intro exI[of _ "Suc k"]) simp
  qed
  have stop: "\<exists>k \<le> length (x # xs). ys @ [x] = ys @ take k (x # xs)"
    by (intro exI[of _ "Suc 0"]) simp
  show ?case
    using step stop by (auto split: option.splits sum.splits simp del: take_Suc_Cons)
qed

text \<open>With a total, every element is passed on as long as the third character of each
  quotient's text is a digit.\<close>

lemma progress_loop_digits:
  "t \<noteq> 0 \<Longrightarrow> (\<forall>k. \<exists>d. third_digit (str_div k t) = Inr d) \<Longrightarrow>
   \<exists>out'. progress_loop str_div (Some t) xs prev it ys out = (ys @ xs, out', StopIteration)"
proof (induction xs arbitrary: prev it ys out)
  case Nil
  then show ?case by simp
next
  case (Cons x xs)
  from Cons.prems(2) obtain d where d: "third_digit (str_div it t) = Inr d" by blast
  from Cons.IH[OF Cons.prems, of d "it + 1" "ys @ [x]"]
       Cons.IH[OF Cons.prems, of prev "it + 1" "ys @ [x]"]
  show ?case using Cons.prems(1) d by simp
qed

text \<open>
  C10: iterating \<open>vanilla_progress(xs)\<close> yields exactly the elements of \<open>xs\<close>. This fails on
  the code for a sized iterable of 100000 elements: after the first \<open>yield\<close> the wrapper
  computes \<open>int(str(1 / 100000)[2])\<close>; the text of that quotient is \<open>1e-05\<close>, its third
  character is \<open>-\<close>, and \<open>int\<close> raises \<open>ValueError\<close>. One value has been yielded, the other
  99999 never are.
\<close>

theorem vanilla_progress_stops_early:
  "str_div 1 100000 = ''1e-05'' \<Longrightarrow> length rest = 99999 \<Longrightarrow>
     vanilla_progress_iter str_div Sized (x # rest) = ([x], [], Raised ValueError)"
  by (simp add: vanilla_progress_iter_def total_of_def third_digit_def is_digit_def)

theorem vanilla_progress_stops_early_witness:
  "vanilla_progress_iter (\<lambda>it tot. ''1e-05'') Sized ((0::nat) # replicate 99999 0) =
     ([0], [], Raised ValueError)"
  using vanilla_progress_stops_early [of "\<lambda>it tot. ''1e-05''" "replicate 99999 0" "0::nat"]
  by simp

section \<open>Properties of the containers\<close>

lemma set_foldl_set_add: "set (foldl set_add acc xs) = set acc \<union> set xs"
  by (induction xs arbitrary: acc) (auto simp: set_add_def)

lemma distinct_foldl_set_add: "distinct acc \<Longrightarrow> distinct (foldl set_add acc xs)"
  by (induction xs arbitrary: acc) (auto simp: set_add_def)

lemma set_set_of_list: "set (set_of_list xs) = set xs"
  by (simp add: set_of_list_def set_foldl_set_add)

lemma distinct_set_of_list: "distinct (set_of_list xs)"
  by (simp add: set_of_list_def distinct_foldl_set_add)

lemma getitem_before:
  "i < length xs \<Longrightarrow>
     getitem xs (int i - 1) = Inr (xs ! (if i = 0 then length xs - 1 else i - 1))"
  by (auto simp: getitem_def nat_diff_distrib)

section \<open>Properties of relations\<close>

text \<open>Relations built from fluents of one name over the same types are equal (\<open>==\<close>), and
  relations with the same \<open>var()\<close> have the same hash.\<close>

lemma Relation_eq_fluent_relation:
  "fluent_name f1 = fluent_name f2 \<Longrightarrow>
   set (map obj_type (fluent_objects f1)) = set (map obj_type (fluent_objects f2)) \<Longrightarrow>
   Relation_eq (fluent_relation f1) (fluent_relation f2)"
  by (simp add: Relation_eq_def fluent_relation_def set_set_of_list)

lemma Relation_hash_var:
  "var r1 = var r2 \<Longrightarrow> Relation_hash str_hash r1 = Relation_hash str_hash r2"
  by (simp add: Relation_hash_def)

text \<open>
  C6: two relations derived from fluents with the same name and the same multiset of
  object types are equal and have the same hash, whatever the order in which the types
  entered the set. Equality holds (\<open>Relation_eq_fluent_relation\<close>). The hash is the hash of
  \<open>var()\<close>, which joins the types in the iteration order of the set, and that order is not
  fixed by the elements: for \<open>on(a, t)\<close> and \<open>on(t, a)\<close> over a block and a table the two
  relations are equal while their \<open>var()\<close> strings differ.
\<close>

theorem Relation_var_depends_on_order:
  "Relation_eq (fluent_relation on_block_table) (fluent_relation on_table_block) \<and>
   var (fluent_relation on_block_table) = ''on block table'' \<and>
   var (fluent_relation on_table_block) = ''on table block''"
  by (simp add: Relation_eq_def fluent_relation_def set_of_list_def set_add_def var_def
        on_block_table_def on_table_block_def block_a_def table_t_def insert_commute)

section \<open>Properties of Step 2A\<close>

lemma step2A_relations_eq:
  "step2A_relations details action relations cs =
     cs @ concat (map (action_constraints details action) (filter (relevant action) relations))"
  by (induction relations arbitrary: cs) auto

lemma step2A_actions_eq:
  "step2A_actions details actions relations cs =
     cs @ concat (map (\<lambda>a. concat (map (action_constraints details a)
                                        (filter (relevant a) relations))) actions)"
  by (induction actions arbitrary: cs) (auto simp: step2A_relations_eq)

lemma product_filter_concat:
  "concat (map (\<lambda>(a, r). g a r) (filter (\<lambda>(a, r). P a r) (List.product xs ys))) =
   concat (map (\<lambda>a. concat (map (g a) (filter (P a) ys))) xs)"
  by (induction xs) (auto simp: filter_map comp_def map_concat)

text \<open>The helper \<open>implication(a, b)\<close> builds the clause \<open>Or([Var(a).negate(), Var(b)])\<close>,
  which holds exactly when \<open>a\<close> implies \<open>b\<close>.\<close>

lemma implication_formula: "implication a b = Or [Var a False, Var b True]"
  by (simp add: implication_def)

lemma eval_implication: "eval_nnf \<sigma> (implication a b) = (\<sigma> a \<longrightarrow> \<sigma> b)"
  by (auto simp: implication_def)

text \<open>
  C7: \<open>_step2A\<close> emits constraints for exactly the pairs of an action and a relation whose
  types are a subset of the action's parameter types: for each such pair the three
  implications add \<open>\<Longrightarrow>\<close> not-pre, pre \<open>\<Longrightarrow>\<close> not-add and del \<open>\<Longrightarrow>\<close> pre, once, and nothing for
  any other pair. Each implication is the clause of the negated first variable and the
  second variable. A pair is an action with an element of the set of relations; two
  relations that list the same types in a different order are two elements, as they are
  in the Python set when their hashes differ.
\<close>

theorem step2A_exactly_relevant_pairs:
  "step2A details connected_actions relations =
     concat (map (\<lambda>(a, r).
                    [Or [Var (var r @ ''_in_add_'' @ details a) False,
                         Var (var r @ ''_notin_pre_'' @ details a) True],
                     Or [Var (var r @ ''_in_pre_'' @ details a) False,
                         Var (var r @ ''_notin_add_'' @ details a) True],
                     Or [Var (var r @ ''_in_del_'' @ details a) False,
                         Var (var r @ ''_in_pre_'' @ details a) True]])
                 (relevant_pairs connected_actions relations)) \<and>
   length (step2A details connected_actions relations) =
     3 * length (relevant_pairs connected_actions relations) \<and>
   set (relevant_pairs connected_actions relations) =
     {(a, r). a \<in> fst ` set connected_actions \<and> r \<in> set relations \<and>
              set (types r) \<subseteq> la_obj_params a} \<and>
   (distinct relations \<longrightarrow> distinct (relevant_pairs connected_actions relations))"
proof -
  let ?g = "\<lambda>a r. [Or [Var (var r @ ''_in_add_'' @ details a) False,
                         Var (var r @ ''_notin_pre_'' @ details a) True],
                    Or [Var (var r @ ''_in_pre_'' @ details a) False,
                         Var (var r @ ''_notin_add_'' @ details a) True],
                    Or [Var (var r @ ''_in_del_'' @ details a) False,
                         Var (var r @ ''_in_pre_'' @ details a) True]]"
  have g: "action_constraints details = ?g"
    by (intro ext) (simp add: action_constraints_def implication_formula)
  have eq: "step2A details connected_actions relations =
     concat (map (\<lambda>(a, r). ?g a r) (relevant_pairs connected_actions relations))"
    unfolding step2A_def relevant_pairs_def step2A_actions_eq product_filter_concat g by simp
  have len: "length (concat (map (\<lambda>(a, r). ?g a r) ps)) = 3 * length ps"
    for ps :: "(learned_action \<times> relation) list"
    by (induction ps) auto
  have st: "set (relevant_pairs connected_actions relations) =
     {(a, r). a \<in> fst ` set connected_actions \<and> r \<in> set relations \<and>
              set (types r) \<subseteq> la_obj_params a}"
    by (auto simp: relevant_pairs_def set_set_of_list relevant_def)
  have di: "distinct relations \<longrightarrow> distinct (relevant_pairs connected_actions relations)"
    by (simp add: relevant_pairs_def distinct_product distinct_set_of_list)
  show ?thesis
    using eq len st di by simp
qed

theorem step2A_exactly_relevant_pairs_witness:
  "length (step2A la_name
            [(pick_up_schema, []), (\<lparr>la_name = ''stack'', la_obj_params = {''block'', ''table''}\<rparr>, [])]
            [holding_relation, \<lparr>rel_name = ''on'', types = [''block'', ''table'']\<rparr>]) = 9 \<and>
   distinct (relevant_pairs
            [(pick_up_schema, []), (\<lparr>la_name = ''stack'', la_obj_params = {''block'', ''table''}\<rparr>, [])]
            [holding_relation, \<lparr>rel_name = ''on'', types = [''block'', ''table'']\<rparr>])"
  using step2A_exactly_relevant_pairs [of la_name
          "[(pick_up_schema, []), (\<lparr>la_name = ''stack'', la_obj_params = {''block'', ''table''}\<rparr>, [])]"
          "[holding_relation, \<lparr>rel_name = ''on'', types = [''block'', ''table'']\<rparr>]"]
  by (simp add: relevant_pairs_def set_of_list_def set_add_def relevant_def
        pick_up_schema_def holding_relation_def)

section \<open>Properties of the example corpus\<close>

lemma get_fluents_pick_up_corpus:
  "get_fluents pick_up_corpus = [holding block_a, holding block_b]"
  by (simp add: get_fluents_def state_fluents_def set_of_list_def set_add_def
        pick_up_corpus_def pick_up_trace_def holding_def block_a_def block_b_def)

lemma get_actions_pick_up_corpus:
  "get_actions pick_up_corpus =
     [pick_up block_a, put_down block_a, pick_up block_b, put_down block_b]"
  by (simp add: get_actions_def set_of_list_def set_add_def pick_up_corpus_def pick_up_trace_def
        pick_up_def put_down_def Action_init_def block_a_def block_b_def)

lemma learn_actions_pick_up_corpus:
  "learn_actions (get_actions pick_up_corpus) =
     [pick_up_schema, put_down_schema, pick_up_schema, put_down_schema]"
  unfolding get_actions_pick_up_corpus learn_actions_def
  by (simp add: LearnedAction_init_def pick_up_def put_down_def Action_init_def
        block_a_def block_b_def pick_up_schema_def put_down_schema_def)

lemma step1_pick_up_corpus:
  "step1 pick_up_corpus =
     [(pick_up_schema, [(pick_up_schema, {''block''}), (put_down_schema, {''block''})]),
      (put_down_schema, [(put_down_schema, {''block''})])]"
  unfolding step1_def learn_actions_pick_up_corpus
  by (simp add: connect_def Let_def pick_up_schema_def put_down_schema_def)

lemma relations_pick_up_corpus:
  "dict_of_pairs (map (\<lambda>f. (f, fluent_relation f)) (get_fluents pick_up_corpus)) =
     [(holding block_a, holding_relation), (holding block_b, holding_relation)]"
  unfolding get_fluents_pick_up_corpus
  by (simp add: dict_of_pairs_def fluent_relation_def set_of_list_def set_add_def holding_def
        block_a_def block_b_def holding_relation_def)

lemma step2I_pick_up_corpus:
  "step2I details (traces pick_up_corpus)
       [(holding block_a, holding_relation), (holding block_b, holding_relation)] =
     Inr ([And [Or [Var (''holding block_in_add_'' @ details (pick_up block_a)) True],
                Var (''holding block_notin_del_'' @ details (pick_up block_a)) True],
           And [Or [Var (''holding block_in_add_'' @ details (pick_up block_b)) True],
                Var (''holding block_notin_del_'' @ details (pick_up block_b)) True]],
          [((holding_relation, pick_up block_a, ''add''), 1),
           ((holding_relation, pick_up block_b, ''add''), 1)])"
  by (simp add: step2I_def step2I_fluent_def getitem_def i1_vars_def increment_def var_def
        pick_up_corpus_def pick_up_trace_def holding_def block_a_def block_b_def
        holding_relation_def pick_up_def put_down_def Action_init_def)

lemma step2_pick_up_corpus:
  "step2 ldetails adetails pick_up_corpus (step1 pick_up_corpus) [holding block_a, holding block_b]
     = Inr []"
  using relations_pick_up_corpus
  by (simp add: step2_def get_fluents_pick_up_corpus step2I_pick_up_corpus Let_def)

lemma token_pick_up_corpus: "token pick_up_corpus = PartialObservation"
  by (simp add: pick_up_corpus_def)

section \<open>Properties of Step 1\<close>

lemma map_of_connect_inner:
  "map_of (connect_inner a1 xs d) a2 =
     (if a2 \<in> set xs \<and> la_obj_params a1 \<inter> la_obj_params a2 \<noteq> {}
      then Some (la_obj_params a1 \<inter> la_obj_params a2) else map_of d a2)"
  by (induction xs arbitrary: d) (auto simp: Let_def update_conv')

lemma map_of_connect_outer_notin:
  "a1 \<notin> set xs \<Longrightarrow> map_of (connect_outer xs c) a1 = map_of c a1"
  by (induction xs arbitrary: c) (auto simp: update_conv')

text \<open>The entry of \<open>a1\<close> that stays is the one written at the last position of \<open>a1\<close>.\<close>

lemma map_of_connect_outer_in:
  "a1 \<in> set xs \<Longrightarrow>
   \<exists>pre suf. xs = pre @ a1 # suf \<and> a1 \<notin> set suf \<and>
     map_of (connect_outer xs c) a1 = Some (connect_inner a1 (a1 # suf) [])"
proof (induction xs arbitrary: c)
  case Nil
  then show ?case by simp
next
  case (Cons x xs)
  show ?case
  proof (cases "a1 \<in> set xs")
    case True
    from Cons.IH[OF True, of "AList.update x (connect_inner x (x # xs) []) c"]
    obtain pre suf where "xs = pre @ a1 # suf" "a1 \<notin> set suf"
      "map_of (connect_outer xs (AList.update x (connect_inner x (x # xs) []) c)) a1 =
         Some (connect_inner a1 (a1 # suf) [])"
      by blast
    then show ?thesis
      by (intro exI[of _ "x # pre"] exI[of _ suf]) simp
  next
    case False
    with Cons.prems have "x = a1" by simp
    with False show ?thesis
      by (intro exI[of _ "[]"] exI[of _ xs]) (simp add: map_of_connect_outer_notin update_conv')
  qed
qed

lemma last_occurrence_unique:
  "pre @ a # suf = pre' @ a # suf' \<Longrightarrow> a \<notin> set suf \<Longrightarrow> a \<notin> set suf' \<Longrightarrow> suf = suf'"
proof (induction pre arbitrary: pre')
  case Nil
  then show ?case by (cases pre') auto
next
  case (Cons x pre)
  show ?case
  proof (cases pre')
    case Nil
    with Cons.prems show ?thesis by auto
  next
    case (Cons y rest)
    with Cons.prems Cons.IH[of rest] show ?thesis by simp
  qed
qed

lemma connect_characterised:
  "(\<exists>d. map_of (connect actions) a1 = Some d \<and> map_of d a2 = Some S) \<longleftrightarrow>
   (S = la_obj_params a1 \<inter> la_obj_params a2 \<and> S \<noteq> {} \<and>
    (\<exists>pre suf. actions = pre @ a1 # suf \<and> a1 \<notin> set suf \<and> a2 \<in> set (a1 # suf)))"
proof (cases "a1 \<in> set actions")
  case False
  then have "map_of (connect actions) a1 = None"
    by (simp add: connect_def map_of_connect_outer_notin)
  with False show ?thesis by auto
next
  case True
  from map_of_connect_outer_in[OF True, of "[]"] obtain pre suf where
    ps: "actions = pre @ a1 # suf" "a1 \<notin> set suf"
    and m: "map_of (connect actions) a1 = Some (connect_inner a1 (a1 # suf) [])"
    by (auto simp: connect_def)
  have uniq: "suf' = suf" if "actions = pre' @ a1 # suf'" "a1 \<notin> set suf'" for pre' suf'
    using last_occurrence_unique[of pre' a1 suf' pre suf] that ps by simp
  show ?thesis
  proof
    assume "\<exists>d. map_of (connect actions) a1 = Some d \<and> map_of d a2 = Some S"
    with m have "map_of (connect_inner a1 (a1 # suf) []) a2 = Some S" by auto
    then have "S = la_obj_params a1 \<inter> la_obj_params a2 \<and> S \<noteq> {} \<and> a2 \<in> set (a1 # suf)"
      unfolding map_of_connect_inner by (auto split: if_splits)
    with ps show "S = la_obj_params a1 \<inter> la_obj_params a2 \<and> S \<noteq> {} \<and>
      (\<exists>pre suf. actions = pre @ a1 # suf \<and> a1 \<notin> set suf \<and> a2 \<in> set (a1 # suf))"
      by blast
  next
    assume r: "S = la_obj_params a1 \<inter> la_obj_params a2 \<and> S \<noteq> {} \<and>
      (\<exists>pre suf. actions = pre @ a1 # suf \<and> a1 \<notin> set suf \<and> a2 \<in> set (a1 # suf))"
    then obtain pre' suf' where
      "actions = pre' @ a1 # suf'" "a1 \<notin> set suf'" "a2 \<in> set (a1 # suf')"
      by blast
    with uniq have "a2 \<in> set (a1 # suf)" by blast
    with r have "map_of (connect_inner a1 (a1 # suf) []) a2 = Some S"
      unfolding map_of_connect_inner by auto
    with m show "\<exists>d. map_of (connect actions) a1 = Some d \<and> map_of d a2 = Some S" by blast
  qed
qed

text \<open>
  C2, as stated: whenever \<open>a2\<close> appears in the inner mapping under \<open>a1\<close> with value \<open>S\<close>,
  \<open>a1\<close> appears under \<open>a2\<close> with the same \<open>S\<close>. On the example corpus \<open>put-down\<close> is stored
  under \<open>pick-up\<close> and \<open>pick-up\<close> is not stored under \<open>put-down\<close>: the inner loop runs over
  \<open>actions[i:]\<close> only.
\<close>

theorem step1_not_symmetric:
  "(\<exists>d. map_of (step1 pick_up_corpus) pick_up_schema = Some d \<and>
        map_of d put_down_schema = Some {''block''}) \<and>
   \<not> (\<exists>d. map_of (step1 pick_up_corpus) put_down_schema = Some d \<and>
          map_of d pick_up_schema = Some {''block''})"
  by (simp add: step1_pick_up_corpus pick_up_schema_def put_down_schema_def)

text \<open>
  C2, amended: \<open>a2\<close> appears under \<open>a1\<close> with value \<open>S\<close> exactly when \<open>S\<close> is the non-empty
  intersection of the two sets of parameter types and \<open>a2\<close> stands at or after the last
  position of \<open>a1\<close> in the list of learned actions. The value is symmetric in \<open>a1\<close> and
  \<open>a2\<close>, so when both directions are stored they carry the same set.
\<close>

theorem step1_connected_iff:
  "((\<exists>d. map_of (step1 obs_lists) a1 = Some d \<and> map_of d a2 = Some S) \<longleftrightarrow>
      (S = la_obj_params a1 \<inter> la_obj_params a2 \<and> S \<noteq> {} \<and>
       (\<exists>pre suf. learn_actions (get_actions obs_lists) = pre @ a1 # suf \<and>
                  a1 \<notin> set suf \<and> a2 \<in> set (a1 # suf)))) \<and>
   (map_of (step1 obs_lists) a1 = Some d1 \<and> map_of d1 a2 = Some S \<and>
    map_of (step1 obs_lists) a2 = Some d2 \<and> map_of d2 a1 = Some S' \<longrightarrow> S' = S)"
proof
  show "(\<exists>d. map_of (step1 obs_lists) a1 = Some d \<and> map_of d a2 = Some S) \<longleftrightarrow>
      (S = la_obj_params a1 \<inter> la_obj_params a2 \<and> S \<noteq> {} \<and>
       (\<exists>pre suf. learn_actions (get_actions obs_lists) = pre @ a1 # suf \<and>
                  a1 \<notin> set suf \<and> a2 \<in> set (a1 # suf)))"
    unfolding step1_def by (rule connect_characterised)
  show "map_of (step1 obs_lists) a1 = Some d1 \<and> map_of d1 a2 = Some S \<and>
    map_of (step1 obs_lists) a2 = Some d2 \<and> map_of d2 a1 = Some S' \<longrightarrow> S' = S"
  proof
    assume h: "map_of (step1 obs_lists) a1 = Some d1 \<and> map_of d1 a2 = Some S \<and>
      map_of (step1 obs_lists) a2 = Some d2 \<and> map_of d2 a1 = Some S'"
    then have 1: "\<exists>d. map_of (connect (learn_actions (get_actions obs_lists))) a1 = Some d \<and>
        map_of d a2 = Some S"
      and 2: "\<exists>d. map_of (connect (learn_actions (get_actions obs_lists))) a2 = Some d \<and>
        map_of d a1 = Some S'"
      by (simp_all add: step1_def)
    from iffD1[OF connect_characterised 1] have "S = la_obj_params a1 \<inter> la_obj_params a2"
      by (rule conjunct1)
    moreover from iffD1[OF connect_characterised 2] have "S' = la_obj_params a2 \<inter> la_obj_params a1"
      by (rule conjunct1)
    ultimately show "S' = S" by (simp add: Int_commute)
  qed
qed

theorem step1_connected_iff_witness:
  "\<exists>d. map_of (step1 pick_up_corpus) pick_up_schema = Some d \<and>
       map_of d put_down_schema = Some {''block''}"
proof -
  have "learn_actions (get_actions pick_up_corpus) =
      [pick_up_schema, put_down_schema] @ pick_up_schema # [put_down_schema] \<and>
      pick_up_schema \<notin> set [put_down_schema] \<and>
      put_down_schema \<in> set (pick_up_schema # [put_down_schema])"
    by (simp add: learn_actions_pick_up_corpus) (simp add: pick_up_schema_def put_down_schema_def)
  then have ex: "\<exists>pre suf. learn_actions (get_actions pick_up_corpus) = pre @ pick_up_schema # suf \<and>
      pick_up_schema \<notin> set suf \<and> put_down_schema \<in> set (pick_up_schema # suf)"
    by (intro exI[of _ "[pick_up_schema, put_down_schema]"] exI[of _ "[put_down_schema]"])
  have a: "{''block''} = la_obj_params pick_up_schema \<inter> la_obj_params put_down_schema"
    by (simp add: pick_up_schema_def put_down_schema_def)
  have b: "{''block''} \<noteq> ({} :: string set)"
    by simp
  note rhs = conjI[OF a conjI[OF b ex]]
  from iffD2[OF conjunct1[OF step1_connected_iff
        [of pick_up_corpus pick_up_schema put_down_schema "{''block''}"]] rhs]
  show ?thesis .
qed

section \<open>Properties of Step 2I\<close>

lemma step2I_fluent_Inr:
  assumes "step2I_fluent details relations obs_list i obs f (cs, sc) = Inr (cs', sc')"
      and "i < length obs_list"
  shows "\<exists>rel. map_of relations f = Some rel \<and>
           cs' = cs @ [info_constraint details rel obs_list i]"
  using assms
  by (auto simp: step2I_fluent_def getitem_before info_constraint_def Let_def
           split: option.splits if_splits)

text \<open>When Step 2I returns, its constraints are the list \<open>info_constraints\<close>.\<close>

lemma step2I_items_exact:
  "step2I_items details relations obs_list i obs st acc = Inr acc' \<Longrightarrow> i < length obs_list \<Longrightarrow>
   fst acc' = fst acc @ state_constraints details relations obs_list i st"
proof (induction st arbitrary: acc)
  case Nil
  then show ?case by (simp add: state_constraints_def)
next
  case (Cons p st)
  obtain f v where p: "p = (f, v)" by (cases p)
  have unfold: "state_constraints details relations obs_list i (p # st) =
      (if v then (case map_of relations f of None \<Rightarrow> []
                  | Some rel \<Rightarrow> [info_constraint details rel obs_list i]) else []) @
      state_constraints details relations obs_list i st"
    by (simp add: state_constraints_def p)
  show ?case
  proof (cases v)
    case False
    with Cons p unfold show ?thesis by simp
  next
    case True
    with Cons.prems p obtain mid where
      m: "step2I_fluent details relations obs_list i obs f acc = Inr mid"
      and r: "step2I_items details relations obs_list i obs st mid = Inr acc'"
      by (auto split: sum.splits)
    from m Cons.prems(2) obtain rel where
      "map_of relations f = Some rel"
      "fst mid = fst acc @ [info_constraint details rel obs_list i]"
      using step2I_fluent_Inr[of details relations obs_list i obs f
              "fst acc" "snd acc" "fst mid" "snd mid"]
      by auto
    with Cons.IH[OF r Cons.prems(2)] unfold True show ?thesis by simp
  qed
qed

lemma step2I_steps_exact:
  "step2I_steps details relations obs_list i rest acc = Inr acc' \<Longrightarrow> rest = drop i obs_list \<Longrightarrow>
   fst acc' = fst acc @
     concat (map (step_constraints details relations obs_list) [i..<length obs_list])"
proof (induction rest arbitrary: i acc)
  case Nil
  then show ?case by simp
next
  case (Cons obs rest)
  have i: "i < length obs_list"
  proof (rule ccontr)
    assume "\<not> i < length obs_list"
    then have "drop i obs_list = []" by simp
    with Cons.prems(2) show False by simp
  qed
  from Cons.prems(2) i have obs: "obs = obs_list ! i" and rest: "rest = drop (i + 1) obs_list"
    by (simp_all add: Cons_nth_drop_Suc[symmetric])
  have upt: "[i..<length obs_list] = i # [i + 1..<length obs_list]"
    using i by (simp add: upt_conv_Cons)
  show ?case
  proof (cases "obs_state obs")
    case None
    with Cons.prems(1) have r: "step2I_steps details relations obs_list (i + 1) rest acc = Inr acc'"
      by simp
    from Cons.IH[OF r rest] None obs show ?thesis
      unfolding upt by (simp add: step_constraints_def)
  next
    case (Some st)
    with Cons.prems(1) obtain mid where
      m: "step2I_items details relations obs_list i obs st acc = Inr mid"
      and r: "step2I_steps details relations obs_list (i + 1) rest mid = Inr acc'"
      by (auto split: sum.splits)
    from step2I_items_exact[OF m i] Cons.IH[OF r rest] Some obs show ?thesis
      unfolding upt by (simp add: step_constraints_def)
  qed
qed

lemma step2I_lists_exact:
  "step2I_lists details relations obs_lists acc = Inr acc' \<Longrightarrow>
   fst acc' = fst acc @ info_constraints details relations obs_lists"
proof (induction obs_lists arbitrary: acc)
  case Nil
  then show ?case by (simp add: info_constraints_def)
next
  case (Cons obs_list rest)
  from Cons.prems obtain mid where
    m: "step2I_steps details relations obs_list 0 obs_list acc = Inr mid"
    and r: "step2I_lists details relations rest mid = Inr acc'"
    by (auto split: sum.splits)
  from step2I_steps_exact[OF m] Cons.IH[OF r] show ?case
    by (simp add: info_constraints_def trace_constraints_def)
qed

lemma step2I_exact:
  "step2I details obs_lists relations = Inr (constraints, support_counts) \<Longrightarrow>
   constraints = info_constraints details relations obs_lists"
  using step2I_lists_exact[of details relations obs_lists "([], [])" "(constraints, support_counts)"]
  by (simp add: step2I_def)

lemma info_constraint_later:
  "0 < i \<Longrightarrow> i < length obs_list \<Longrightarrow>
   info_constraint details rel obs_list i =
     And [Or (map (\<lambda>obs_i. Var (var rel @ ''_in_add_'' @ details (obs_action obs_i)) True)
                  (take i obs_list)),
          Var (var rel @ ''_notin_del_'' @ details (obs_action (obs_list ! (i - 1)))) True] \<and>
   length (take i obs_list) = i"
  by (simp add: info_constraint_def i1_vars_def)

lemma info_constraint_first:
  "info_constraint details rel obs_list 0 =
     And [Or [], Var (var rel @ ''_notin_del_'' @
                      details (obs_action (obs_list ! (length obs_list - 1)))) True]"
  by (simp add: info_constraint_def i1_vars_def)

text \<open>Step 2I raises nothing when every fluent observed true is a key of
  \<open>relations\<close>.\<close>

lemma step2I_fluent_total:
  "i < length obs_list \<Longrightarrow> f \<in> fst ` set relations \<Longrightarrow>
   \<exists>acc'. step2I_fluent details relations obs_list i obs f acc = Inr acc'"
proof -
  assume i: "i < length obs_list" and f: "f \<in> fst ` set relations"
  from f obtain rel where "map_of relations f = Some rel"
    by (metis map_of_eq_None_iff not_Some_eq)
  with i show ?thesis
    by (cases acc) (simp add: step2I_fluent_def getitem_before Let_def)
qed

lemma step2I_items_total:
  "i < length obs_list \<Longrightarrow> (\<forall>f. (f, True) \<in> set st \<longrightarrow> f \<in> fst ` set relations) \<Longrightarrow>
   \<exists>acc'. step2I_items details relations obs_list i obs st acc = Inr acc'"
proof (induction st arbitrary: acc)
  case Nil
  then show ?case by simp
next
  case (Cons p st)
  obtain f v where p: "p = (f, v)" by (cases p)
  from Cons.prems(2) have rest: "\<forall>f. (f, True) \<in> set st \<longrightarrow> f \<in> fst ` set relations"
    by simp
  show ?case
  proof (cases v)
    case False
    with p Cons.IH[OF Cons.prems(1) rest] show ?thesis by simp
  next
    case True
    with p Cons.prems(2) have "f \<in> fst ` set relations" by simp
    from step2I_fluent_total[OF Cons.prems(1) this] obtain mid where
      "step2I_fluent details relations obs_list i obs f acc = Inr mid" by blast
    with p True Cons.IH[OF Cons.prems(1) rest, of mid] show ?thesis by simp
  qed
qed

lemma step2I_steps_total:
  "i + length rest \<le> length obs_list \<Longrightarrow>
   (\<forall>obs \<in> set rest. \<forall>st f. obs_state obs = Some st \<longrightarrow> (f, True) \<in> set st \<longrightarrow>
       f \<in> fst ` set relations) \<Longrightarrow>
   \<exists>acc'. step2I_steps details relations obs_list i rest acc = Inr acc'"
proof (induction rest arbitrary: i acc)
  case Nil
  then show ?case by simp
next
  case (Cons obs rest)
  from Cons.prems(1) have i: "i < length obs_list" and len: "(i + 1) + length rest \<le> length obs_list"
    by simp_all
  from Cons.prems(2) have rest: "\<forall>obs \<in> set rest. \<forall>st f. obs_state obs = Some st \<longrightarrow>
      (f, True) \<in> set st \<longrightarrow> f \<in> fst ` set relations"
    by simp
  show ?case
  proof (cases "obs_state obs")
    case None
    with Cons.IH[OF len rest, of acc] show ?thesis by simp
  next
    case (Some st)
    with Cons.prems(2) have "\<forall>f. (f, True) \<in> set st \<longrightarrow> f \<in> fst ` set relations"
      by simp
    from step2I_items_total[OF i this] obtain mid where
      "step2I_items details relations obs_list i obs st acc = Inr mid" by blast
    with Some Cons.IH[OF len rest, of mid] show ?thesis by simp
  qed
qed

lemma step2I_lists_total:
  "(\<forall>obs_list \<in> set obs_lists. \<forall>obs \<in> set obs_list. \<forall>st f.
      obs_state obs = Some st \<longrightarrow> (f, True) \<in> set st \<longrightarrow> f \<in> fst ` set relations) \<Longrightarrow>
   \<exists>acc'. step2I_lists details relations obs_lists acc = Inr acc'"
proof (induction obs_lists arbitrary: acc)
  case Nil
  then show ?case by simp
next
  case (Cons obs_list rest)
  from Cons.prems have here: "\<forall>obs \<in> set obs_list. \<forall>st f.
      obs_state obs = Some st \<longrightarrow> (f, True) \<in> set st \<longrightarrow> f \<in> fst ` set relations"
    and rest: "\<forall>obs_list \<in> set rest. \<forall>obs \<in> set obs_list. \<forall>st f.
      obs_state obs = Some st \<longrightarrow> (f, True) \<in> set st \<longrightarrow> f \<in> fst ` set relations"
    by simp_all
  from step2I_steps_total[of 0 obs_list obs_list relations details acc, OF _ here] obtain mid where
    "step2I_steps details relations obs_list 0 obs_list acc = Inr mid" by auto
  with Cons.IH[OF rest, of mid] show ?case by simp
qed

text \<open>A conjunction with an empty disjunction among its children is false under every
  assignment.\<close>

lemma empty_disjunction_false: "\<not> eval_nnf \<sigma> (And [Or [], c])"
  by simp

text \<open>
  For every corpus in which each fluent observed true is a key of \<open>relations\<close>, Step 2I
  returns, and its constraints are exactly those of \<open>info_constraints\<close>: one for each
  fluent observed true, built by \<open>info_constraint\<close> at the position of the observation.
\<close>

lemma step2I_returns_info_constraints:
  assumes "\<forall>obs_list \<in> set obs_lists. \<forall>obs \<in> set obs_list. \<forall>st f.
             obs_state obs = Some st \<longrightarrow> (f, True) \<in> set st \<longrightarrow> f \<in> fst ` set relations"
  shows "\<exists>support_counts.
     step2I details obs_lists relations =
       Inr (info_constraints details relations obs_lists, support_counts)"
proof -
  from step2I_lists_total[OF assms, of details "([], [])"] obtain constraints support_counts
    where "step2I details obs_lists relations = Inr (constraints, support_counts)"
    by (force simp: step2I_def)
  with step2I_exact[OF this] show ?thesis by blast
qed

text \<open>
  C3: at a step at position \<open>i\<close> whose observed state assigns true to a fluent, with no
  action at the positions before \<open>i\<close>, \<open>_step2I\<close> detects the empty I1 disjunction and
  emits the requirement that the fluent be true in the initial state rather than an
  always-false constraint, and the I2 variable always names the action at position
  \<open>i - 1\<close> of the same trace. This fails on the code at \<open>i = 0\<close>. On a trace whose first step
  observes \<open>ontable(a)\<close> true the code appends \<open>And([Or([]), i2])\<close>, false even when every
  variable is true, and \<open>i2\<close> names \<open>put-down\<close>, the action of the last step of the trace:
  \<open>obs_list[i-1]\<close> is \<open>obs_list[-1]\<close> there. The key of an action is its name here;
  \<open>info_constraint_first\<close> gives the same shape for every key function. From position 1 on
  the constraint is as the claim says (\<open>info_constraint_later\<close>).
\<close>

theorem step2I_empty_disjunction:
  "step2I act_name [ontable_trace] [(ontable block_a, fluent_relation (ontable block_a))] =
     Inr ([And [Or [], Var ''ontable block_notin_del_put-down'' True]],
          [((fluent_relation (ontable block_a), pick_up block_a, ''pre''), 1)]) \<and>
   \<not> eval_nnf (\<lambda>v. True) (And [Or [], Var ''ontable block_notin_del_put-down'' True])"
  by (simp add: step2I_def step2I_fluent_def getitem_def i1_vars_def increment_def var_def
        ontable_trace_def ontable_def block_a_def fluent_relation_def set_of_list_def set_add_def
        pick_up_def put_down_def Action_init_def)

section \<open>Properties of Step 2 and of the entry point\<close>

text \<open>
  \<open>_step2\<close> is called with the fluents of the corpus, so every observed fluent is a key of
  \<open>relations\<close> and nothing raises. Whatever the corpus, \<open>_step2\<close> returns the empty list
  and the extraction a model without actions.
\<close>

lemma keys_foldl_update:
  "fst ` set (foldl (\<lambda>d (k, v). AList.update k v d) d ps) = fst ` set d \<union> fst ` set ps"
proof (induction ps arbitrary: d)
  case Nil
  then show ?case by simp
next
  case (Cons p ps)
  obtain k v where p: "p = (k, v)" by (cases p)
  have "fst ` set (foldl (\<lambda>d (k, v). AList.update k v d) (AList.update k v d) ps) =
      fst ` set (AList.update k v d) \<union> fst ` set ps"
    by (rule Cons.IH)
  also have "fst ` set (AList.update k v d) = {k} \<union> fst ` set d"
    by (rule dom_update)
  finally show ?case using p by auto
qed

lemma keys_dict_of_pairs: "fst ` set (dict_of_pairs ps) = fst ` set ps"
  by (simp add: dict_of_pairs_def keys_foldl_update)

lemma get_fluents_covers:
  "obs_list \<in> set (traces obs_lists) \<Longrightarrow> obs \<in> set obs_list \<Longrightarrow> obs_state obs = Some st \<Longrightarrow>
   (f, v) \<in> set st \<Longrightarrow> f \<in> set (get_fluents obs_lists)"
  by (force simp: get_fluents_def set_set_of_list state_fluents_def)

lemma step2_total:
  "step2 ldetails adetails obs_lists connected_actions (get_fluents obs_lists) = Inr []"
proof -
  let ?rels = "dict_of_pairs (map (\<lambda>f. (f, fluent_relation f)) (get_fluents obs_lists))"
  have keys: "fst ` set ?rels = set (get_fluents obs_lists)"
    by (simp add: keys_dict_of_pairs image_image)
  have "\<forall>obs_list \<in> set (traces obs_lists). \<forall>obs \<in> set obs_list. \<forall>st f.
      obs_state obs = Some st \<longrightarrow> (f, True) \<in> set st \<longrightarrow> f \<in> fst ` set ?rels"
    unfolding keys using get_fluents_covers by blast
  from step2I_lists_total[OF this] obtain acc where
    "step2I adetails (traces obs_lists) ?rels = Inr acc"
    unfolding step2I_def by blast
  then show ?thesis
    by (simp add: step2_def Let_def split: prod.splits)
qed

lemma ARMS_total:
  "token obs_lists = PartialObservation \<Longrightarrow>
   ARMS ldetails adetails obs_lists =
     Inr \<lparr>model_fluents = get_fluents obs_lists, model_actions = {}\<rparr>"
  by (simp add: ARMS_def arms_def step2_total Let_def)

text \<open>
  C8: when the Step-2I pass accumulates a support count, the extraction computes for every
  counted triple the weight count / (maximum count). On the example corpus Step 2I counts
  two triples, once each, and \<open>_step2\<close> returns the empty list: the lines that divide by the
  maximum count are inside a string literal, so no weight is computed from the counts.
\<close>

theorem step2_discards_support_counts:
  "step2I adetails (traces pick_up_corpus)
       (dict_of_pairs (map (\<lambda>f. (f, fluent_relation f)) (get_fluents pick_up_corpus))) =
     Inr ([And [Or [Var (''holding block_in_add_'' @ adetails (pick_up block_a)) True],
                Var (''holding block_notin_del_'' @ adetails (pick_up block_a)) True],
           And [Or [Var (''holding block_in_add_'' @ adetails (pick_up block_b)) True],
                Var (''holding block_notin_del_'' @ adetails (pick_up block_b)) True]],
          [((holding_relation, pick_up block_a, ''add''), 1),
           ((holding_relation, pick_up block_b, ''add''), 1)]) \<and>
   step2 ldetails adetails pick_up_corpus (step1 pick_up_corpus) (get_fluents pick_up_corpus)
     = Inr []"
  by (simp add: relations_pick_up_corpus step2I_pick_up_corpus)
     (simp add: get_fluents_pick_up_corpus step2_pick_up_corpus)

text \<open>
  C1: on the corpus of the end-to-end scenario the extraction returns a model whose
  \<open>pick-up\<close> action has \<open>holding\<close> in its add-list. The code returns a model with the two
  fluents and no action at all: \<open>_arms\<close> builds the constraints, drops them and returns
  the empty set.
\<close>

theorem ARMS_returns_no_action:
  "ARMS ldetails adetails pick_up_corpus =
     Inr \<lparr>model_fluents = [holding block_a, holding block_b], model_actions = {}\<rparr>"
  by (simp add: ARMS_def arms_def token_pick_up_corpus get_fluents_pick_up_corpus
        step2_pick_up_corpus check_goal_def Let_def)

end
